theory Spec2Isabelle
  imports Main "HOL-Library.Word"
begin

section \<open>The fixture library \<open>testmath.c\<close>: integer primitives\<close>

text \<open>
  A C \<open>int\<close> is a 32-bit two's complement machine integer: a \<open>32 word\<close>, read with
  \<open>sint\<close>. Addition and multiplication on words wrap around.
\<close>

type_synonym c_int = "32 word"

definition testmath_add :: "c_int \<Rightarrow> c_int \<Rightarrow> c_int" where
  "testmath_add a b = a + b"

definition testmath_multiply :: "c_int \<Rightarrow> c_int \<Rightarrow> c_int" where
  "testmath_multiply a b = a * b"

section \<open>IEEE-754 binary64 values: the C type \<open>double\<close>\<close>

text \<open>
  A \<open>double\<close> is a NaN, a signed infinity, or a signed finite value. Every finite
  binary64 value is an integer multiple of the smallest subnormal \<open>2 ^ -1074\<close>, so a finite
  value is kept as its sign (\<open>True\<close> is negative) and its magnitude counted in that unit:
  \<open>Fin s k\<close> is \<open>(-1) ^ s * k * 2 ^ -1074\<close>. The zeros are \<open>Fin False 0\<close> and
  \<open>Fin True 0\<close>; \<open>1.0\<close> is \<open>Fin False (2 ^ 1074)\<close>.
\<close>

datatype double = NaN | Inf bool | Fin bool nat

text \<open>
  In units: the magnitude of \<open>1.0\<close>, and the magnitude \<open>2 ^ 1024\<close> at which a rounded result
  overflows (the largest finite double is \<open>(2 ^ 53 - 1) * 2 ^ 971\<close>).
\<close>

definition one_units :: nat where
  "one_units = 2 ^ 1074"

definition overflow_units :: nat where
  "overflow_units = 2 ^ 1024 * one_units"

fun bit_length :: "nat \<Rightarrow> nat" where
  "bit_length n = (if n = 0 then 0 else Suc (bit_length (n div 2)))"

declare bit_length.simps [simp del]

text \<open>
  The magnitudes a binary64 holds: a significand of at most 53 bits, and a value below
  \<open>2 ^ 1024\<close>.
\<close>

definition representable :: "nat \<Rightarrow> bool" where
  "representable k \<longleftrightarrow> k < overflow_units \<and> k mod 2 ^ (bit_length k - 53) = 0"

fun is_double :: "double \<Rightarrow> bool" where
  "is_double (Fin s k) = representable k"
| "is_double _ = True"

text \<open>
  Rounding the fraction \<open>a / b\<close> to the nearest integer, a tie going to the even one.
\<close>

definition round_nearest_even :: "nat \<Rightarrow> nat \<Rightarrow> nat" where
  "round_nearest_even a b =
     (let q = a div b; r = a mod b
      in if 2 * r < b then q
         else if b < 2 * r then q + 1
         else if even q then q else q + 1)"

text \<open>
  Rounding a magnitude of \<open>a / b\<close> units to binary64 in the default mode (to nearest, ties to
  even): the significand keeps 53 bits, so the last place is worth \<open>2 ^ e\<close> units, where
  \<open>e\<close> is the number of bits of the integer part beyond 53 (none for subnormals and for
  the first binade). A rounded magnitude of \<open>2 ^ 1024\<close> or more overflows to infinity.
\<close>

definition round_to_double :: "bool \<Rightarrow> nat \<Rightarrow> nat \<Rightarrow> double" where
  "round_to_double s a b =
     (let e = bit_length (a div b) - 53;
          k = round_nearest_even a (b * 2 ^ e) * 2 ^ e
      in if overflow_units \<le> k then Inf s else Fin s k)"

text \<open>The C operators \<open>/\<close>, \<open>+\<close>, \<open><=\<close> and \<open><\<close> on doubles.\<close>

fun double_div :: "double \<Rightarrow> double \<Rightarrow> double" where
  "double_div NaN _ = NaN"
| "double_div _ NaN = NaN"
| "double_div (Inf s) (Inf t) = NaN"
| "double_div (Inf s) (Fin t b) = Inf (s \<noteq> t)"
| "double_div (Fin s a) (Inf t) = Fin (s \<noteq> t) 0"
| "double_div (Fin s a) (Fin t b) =
     (if b = 0 then (if a = 0 then NaN else Inf (s \<noteq> t))
      else round_to_double (s \<noteq> t) (a * one_units) b)"

fun double_add :: "double \<Rightarrow> double \<Rightarrow> double" where
  "double_add NaN _ = NaN"
| "double_add _ NaN = NaN"
| "double_add (Inf s) (Inf t) = (if s = t then Inf s else NaN)"
| "double_add (Inf s) (Fin t b) = Inf s"
| "double_add (Fin s a) (Inf t) = Inf t"
| "double_add (Fin s a) (Fin t b) =
     (if s = t then round_to_double s (a + b) 1
      else if b < a then round_to_double s (a - b) 1
      else if a < b then round_to_double t (b - a) 1
      else Fin False 0)"

definition signed_units :: "bool \<Rightarrow> nat \<Rightarrow> int" where
  "signed_units s k = (if s then - int k else int k)"

fun double_le :: "double \<Rightarrow> double \<Rightarrow> bool" where
  "double_le NaN _ = False"
| "double_le _ NaN = False"
| "double_le (Inf s) (Inf t) = (s \<or> \<not> t)"
| "double_le (Inf s) (Fin t b) = s"
| "double_le (Fin s a) (Inf t) = (\<not> t)"
| "double_le (Fin s a) (Fin t b) = (signed_units s a \<le> signed_units t b)"

fun double_lt :: "double \<Rightarrow> double \<Rightarrow> bool" where
  "double_lt NaN _ = False"
| "double_lt _ NaN = False"
| "double_lt (Inf s) (Inf t) = (s \<and> \<not> t)"
| "double_lt (Inf s) (Fin t b) = s"
| "double_lt (Fin s a) (Inf t) = (\<not> t)"
| "double_lt (Fin s a) (Fin t b) = (signed_units s a < signed_units t b)"

text \<open>The literals \<open>0.0\<close> and \<open>2.0\<close>.\<close>

definition zero :: double where
  "zero = Fin False 0"

definition two :: double where
  "two = Fin False (2 * one_units)"

section \<open>The fixture library \<open>testmath.c\<close>: \<open>testmath_sqrt_approx\<close>\<close>

text \<open>
  \<^verbatim>\<open>
  double testmath_sqrt_approx(double x) {
      if (x <= 0.0) return 0.0;
      double guess = x / 2.0;
      for (int i = 0; i < 10; i++) {
          guess = (guess + x / guess) / 2.0;
      }
      return guess;
  }
  \<close>
  The loop is the recursion \<open>newton_loop\<close> on the counter \<open>i\<close> and the running guess.
\<close>

function newton_loop :: "double \<Rightarrow> nat \<Rightarrow> double \<Rightarrow> double" where
  "newton_loop x i guess =
     (if i < 10
      then newton_loop x (i + 1) (double_div (double_add guess (double_div x guess)) two)
      else guess)"
  by pat_completeness auto
termination
  by (relation "measure (\<lambda>(x, i, guess). 10 - i)") auto

declare newton_loop.simps [simp del]

definition testmath_sqrt_approx :: "double \<Rightarrow> double" where
  "testmath_sqrt_approx x =
     (if double_le x zero then zero
      else newton_loop x 0 (double_div x two))"

text \<open>
  The same loop, recording the value of \<open>guess\<close> each time the loop condition is
  evaluated: the divisors of the ten divisions \<open>x / guess\<close>, in order, and the final guess.
\<close>

function newton_guesses :: "double \<Rightarrow> nat \<Rightarrow> double \<Rightarrow> double list" where
  "newton_guesses x i guess =
     (if i < 10
      then guess # newton_guesses x (i + 1) (double_div (double_add guess (double_div x guess)) two)
      else [guess])"
  by pat_completeness auto
termination
  by (relation "measure (\<lambda>(x, i, guess). 10 - i)") auto

declare newton_guesses.simps [simp del]

section \<open>The fixture library \<open>testmath.c\<close>: the \<open>hlp_\<close> companions\<close>

text \<open>
  The functions the file defines, in order, with their linkage and declared types. None is
  \<open>static\<close>, so each has external linkage and is a symbol of the shared library.
\<close>

datatype c_type = C_int | C_double | C_void_ptr | C_const_char_ptr_ptr

record c_function =
  fn_name :: string
  fn_static :: bool
  fn_params :: "c_type list"
  fn_return :: c_type

definition testmath_c :: "c_function list" where
  "testmath_c =
     [\<lparr>fn_name = ''testmath_add'', fn_static = False,
       fn_params = [C_int, C_int], fn_return = C_int\<rparr>,
      \<lparr>fn_name = ''testmath_multiply'', fn_static = False,
       fn_params = [C_int, C_int], fn_return = C_int\<rparr>,
      \<lparr>fn_name = ''testmath_sqrt_approx'', fn_static = False,
       fn_params = [C_double], fn_return = C_double\<rparr>,
      \<lparr>fn_name = ''hlp_add'', fn_static = False,
       fn_params = [C_const_char_ptr_ptr], fn_return = C_void_ptr\<rparr>,
      \<lparr>fn_name = ''hlp_multiply'', fn_static = False,
       fn_params = [C_const_char_ptr_ptr], fn_return = C_void_ptr\<rparr>,
      \<lparr>fn_name = ''hlp_sqrt_approx'', fn_static = False,
       fn_params = [C_const_char_ptr_ptr], fn_return = C_void_ptr\<rparr>]"

definition exported_symbols :: "c_function list \<Rightarrow> string list" where
  "exported_symbols fs = map fn_name (filter (\<lambda>f. \<not> fn_static f) fs)"

definition find_function :: "c_function list \<Rightarrow> string \<Rightarrow> c_function option" where
  "find_function fs name = find (\<lambda>f. fn_name f = name) fs"

text \<open>
  The three primitives, the targets of the code pointers the companions return, and the
  symbol each is defined under.
\<close>

datatype primitive = Testmath_add | Testmath_multiply | Testmath_sqrt_approx

fun symbol_of :: "primitive \<Rightarrow> string" where
  "symbol_of Testmath_add = ''testmath_add''"
| "symbol_of Testmath_multiply = ''testmath_multiply''"
| "symbol_of Testmath_sqrt_approx = ''testmath_sqrt_approx''"

text \<open>
  Pointers. A \<open>const char *\<close> points to a static array of characters, kept as the array's
  contents; a string literal is such an array, ending with the NUL character. The out-slots
  (\<open>const char **sign\<close>) live in a memory from addresses to the \<open>const char *\<close> each slot
  holds; an address outside it is no valid slot, and storing through it or through the null
  pointer is undefined (\<open>None\<close>).
\<close>

datatype 'a ptr = Null | Ptr 'a

definition NUL :: char where
  "NUL = CHR 0x00"

definition string_literal :: "string \<Rightarrow> char list" where
  "string_literal s = s @ [NUL]"

definition c_str :: "char list \<Rightarrow> string" where
  "c_str bytes = takeWhile (\<lambda>c. c \<noteq> NUL) bytes"

type_synonym slots = "nat \<rightharpoonup> char list ptr"

definition store_slot :: "nat ptr \<Rightarrow> char list ptr \<Rightarrow> slots \<Rightarrow> slots option" where
  "store_slot sign v m =
     (case sign of
        Null \<Rightarrow> None
      | Ptr a \<Rightarrow> (case m a of None \<Rightarrow> None | Some old \<Rightarrow> Some (m(a \<mapsto> v))))"

text \<open>
  \<^verbatim>\<open>
  void* hlp_add(const char** sign) {
      *sign = "ii_i";
      return (void*)testmath_add;
  }
  \<close>
  and the same for \<open>hlp_multiply\<close> and \<open>hlp_sqrt_approx\<close>: the store through \<open>sign\<close>, then
  the address of the primitive.
\<close>

definition hlp_add :: "nat ptr \<Rightarrow> slots \<Rightarrow> (primitive ptr \<times> slots) option" where
  "hlp_add sign m =
     (case store_slot sign (Ptr (string_literal ''ii_i'')) m of
        None \<Rightarrow> None
      | Some m' \<Rightarrow> Some (Ptr Testmath_add, m'))"

definition hlp_multiply :: "nat ptr \<Rightarrow> slots \<Rightarrow> (primitive ptr \<times> slots) option" where
  "hlp_multiply sign m =
     (case store_slot sign (Ptr (string_literal ''ii_i'')) m of
        None \<Rightarrow> None
      | Some m' \<Rightarrow> Some (Ptr Testmath_multiply, m'))"

definition hlp_sqrt_approx :: "nat ptr \<Rightarrow> slots \<Rightarrow> (primitive ptr \<times> slots) option" where
  "hlp_sqrt_approx sign m =
     (case store_slot sign (Ptr (string_literal ''d_d'')) m of
        None \<Rightarrow> None
      | Some m' \<Rightarrow> Some (Ptr Testmath_sqrt_approx, m'))"

text \<open>
  The signature format of the file's comment: the parameters' type codes, \<open>_\<close>, the return
  type's code, with \<open>i\<close> = i32, \<open>d\<close> = f64, \<open>v\<close> = void, \<open>b\<close> = bool, \<open>B\<close> = bytes. A
  parameter is never void.
\<close>

datatype hl_type = HI32 | HF64 | HVoid | HBool | HBytes

definition type_of_code :: "char \<Rightarrow> hl_type option" where
  "type_of_code c =
     (if c = CHR ''i'' then Some HI32
      else if c = CHR ''d'' then Some HF64
      else if c = CHR ''v'' then Some HVoid
      else if c = CHR ''b'' then Some HBool
      else if c = CHR ''B'' then Some HBytes
      else None)"

fun param_types :: "string \<Rightarrow> hl_type list option" where
  "param_types [] = Some []"
| "param_types (c # cs) =
     (case type_of_code c of
        None \<Rightarrow> None
      | Some HVoid \<Rightarrow> None
      | Some t \<Rightarrow> (case param_types cs of None \<Rightarrow> None | Some ts \<Rightarrow> Some (t # ts)))"

definition parse_signature :: "string \<Rightarrow> (hl_type list \<times> hl_type) option" where
  "parse_signature s =
     (case dropWhile (\<lambda>c. c \<noteq> CHR ''_'') s of
        [u, r] \<Rightarrow>
          (case (param_types (takeWhile (\<lambda>c. c \<noteq> CHR ''_'') s), type_of_code r) of
             (Some ts, Some t) \<Rightarrow> Some (ts, t)
           | _ \<Rightarrow> None)
      | _ \<Rightarrow> None)"

text \<open>The type code of a declared C type: \<open>int\<close> is i32, \<open>double\<close> is f64.\<close>

fun hl_of_c :: "c_type \<Rightarrow> hl_type option" where
  "hl_of_c C_int = Some HI32"
| "hl_of_c C_double = Some HF64"
| "hl_of_c _ = None"

definition declared_signature :: "primitive \<Rightarrow> (hl_type option list \<times> hl_type option) option" where
  "declared_signature P =
     (case find_function testmath_c (symbol_of P) of
        None \<Rightarrow> None
      | Some f \<Rightarrow> Some (map hl_of_c (fn_params f), hl_of_c (fn_return f)))"

text \<open>
  Calling a primitive by its name, and calling through a code pointer: casting the
  \<open>void *\<close> back and calling it runs the function at that address. A call whose arguments
  are not of the function's parameter types is undefined.
\<close>

datatype c_value = VInt c_int | VDouble double

fun call_primitive :: "primitive \<Rightarrow> c_value list \<Rightarrow> c_value option" where
  "call_primitive Testmath_add [VInt a, VInt b] = Some (VInt (testmath_add a b))"
| "call_primitive Testmath_multiply [VInt a, VInt b] = Some (VInt (testmath_multiply a b))"
| "call_primitive Testmath_sqrt_approx [VDouble x] = Some (VDouble (testmath_sqrt_approx x))"
| "call_primitive _ _ = None"

fun invoke :: "primitive ptr \<Rightarrow> c_value list \<Rightarrow> c_value option" where
  "invoke Null args = None"
| "invoke (Ptr P) args = call_primitive P args"

fun value_type :: "c_value \<Rightarrow> hl_type" where
  "value_type (VInt a) = HI32"
| "value_type (VDouble x) = HF64"

text \<open>
  A signature string agrees with a primitive when it parses and its codes are those of the
  primitive's declared parameter and return types.
\<close>

definition signature_matches :: "string \<Rightarrow> primitive \<Rightarrow> bool" where
  "signature_matches s P =
     (case parse_signature s of
        None \<Rightarrow> False
      | Some (ts, t) \<Rightarrow> declared_signature P = Some (map Some ts, Some t))"

text \<open>
  The companion of a primitive is the function that returns its address: \<open>hlp_add\<close>
  returns \<open>testmath_add\<close>, \<open>hlp_multiply\<close> returns \<open>testmath_multiply\<close>,
  \<open>hlp_sqrt_approx\<close> returns \<open>testmath_sqrt_approx\<close>.
\<close>

definition companions :: "(string \<times> (nat ptr \<Rightarrow> slots \<Rightarrow> (primitive ptr \<times> slots) option)) list" where
  "companions =
     [(''hlp_add'', hlp_add), (''hlp_multiply'', hlp_multiply),
      (''hlp_sqrt_approx'', hlp_sqrt_approx)]"

fun companion_symbol :: "primitive \<Rightarrow> string" where
  "companion_symbol Testmath_add = ''hlp_add''"
| "companion_symbol Testmath_multiply = ''hlp_multiply''"
| "companion_symbol Testmath_sqrt_approx = ''hlp_sqrt_approx''"

section \<open>The crash shim \<open>seghandler.c\<close>\<close>

text \<open>
  The shim works on the process around it: what has reached the standard-error
  descriptor, what the stdio stream \<open>stderr\<close> still holds in its buffer and how that stream
  is buffered, whether the process has exited and with which status, the alternate signal
  stack and the signal dispositions registered with the kernel. Signal numbers and
  \<open>si_code\<close> are C \<open>int\<close>s far from overflow, kept as integers; addresses are naturals.
\<close>

type_synonym addr = nat

datatype handler = Segfault_handler

datatype sa_flag = SA_SIGINFO | SA_ONSTACK

record sigaction_t =
  sa_sigaction :: handler
  sa_flags :: "sa_flag set"
  sa_mask :: "int set"

record stack_t =
  ss_sp :: "addr ptr"
  ss_size :: nat
  ss_flags :: int

datatype buffering = Unbuffered | Line_buffered | Fully_buffered nat

record process =
  stderr_out :: string
  stderr_buf :: string
  stderr_mode :: buffering
  exit_status :: "nat option"
  alt_stack :: "stack_t option"
  handlers :: "int \<rightharpoonup> sigaction_t"

text \<open>
  What the platform's headers and libraries fix and the source does not: the numbers of
  the three signals, the text \<open>%p\<close> prints for an address, and the line
  \<open>backtrace_symbols_fd\<close> writes for a return address.
\<close>

record platform =
  SIGSEGV :: int
  SIGABRT :: int
  SIGBUS :: int
  fmt_p :: "addr \<Rightarrow> string"
  symbol_line :: "addr \<Rightarrow> string"

definition STDERR_FILENO :: int where
  "STDERR_FILENO = 2"

definition nl :: string where
  "nl = [CHR 0x0A]"

text \<open>The conversion \<open>%d\<close> of \<open>printf\<close>.\<close>

definition digit :: "nat \<Rightarrow> char" where
  "digit d = ''0123456789'' ! d"

fun decimal :: "nat \<Rightarrow> string" where
  "decimal n = (if n < 10 then [digit n] else decimal (n div 10) @ [digit (n mod 10)])"

declare decimal.simps [simp del]

definition fmt_d :: "int \<Rightarrow> string" where
  "fmt_d i = (if i < 0 then CHR ''-'' # decimal (nat (- i)) else decimal (nat i))"

text \<open>
  The library calls the shim makes, with their arguments evaluated: \<open>fprintf(stderr, ...)\<close>
  with the text it formats, \<open>backtrace(array, n)\<close>,
  \<open>backtrace_symbols_fd(array, size, fd)\<close> with the frames in the array, and
  \<open>_exit(status)\<close>.
\<close>

datatype libcall =
    Fprintf_stderr string
  | Backtrace nat
  | Backtrace_symbols_fd "addr list" int
  | Underscore_exit int

text \<open>
  Their effect on the process. What \<open>fprintf\<close> formats is appended to the buffer of the
  stream, and the stream passes to the descriptor as much of the buffer as its mode says:
  all of it when unbuffered (the mode of \<open>stderr\<close> when a program starts), all up to the
  last newline when line buffered, and whole buffers of the given size when fully
  buffered (a host can choose that with \<open>setvbuf\<close>). \<open>backtrace_symbols_fd\<close> writes one line
  for each frame straight to the descriptor, past the stream. \<open>_exit\<close> ends the process
  without flushing any stream, so what is still in the buffer is never written; the
  parent sees the low eight bits of the status, and nothing runs after it.
\<close>

fun flush_point :: "buffering \<Rightarrow> string \<Rightarrow> nat" where
  "flush_point Unbuffered data = length data"
| "flush_point Line_buffered data =
     length data - length (takeWhile (\<lambda>c. c \<noteq> CHR 0x0A) (rev data))"
| "flush_point (Fully_buffered cap) data =
     (if cap = 0 then length data else (length data div cap) * cap)"

fun exec :: "platform \<Rightarrow> libcall \<Rightarrow> process \<Rightarrow> process" where
  "exec pf (Fprintf_stderr s) p =
     (let data = stderr_buf p @ s;
          n = flush_point (stderr_mode p) data
      in p\<lparr>stderr_out := stderr_out p @ take n data, stderr_buf := drop n data\<rparr>)"
| "exec pf (Backtrace n) p = p"
| "exec pf (Backtrace_symbols_fd frames fd) p =
     (if fd = STDERR_FILENO
      then p\<lparr>stderr_out := stderr_out p @ concat (map (\<lambda>f. symbol_line pf f @ nl) frames)\<rparr>
      else p)"
| "exec pf (Underscore_exit status) p = p\<lparr>exit_status := Some (nat (status mod 256))\<rparr>"

fun run :: "platform \<Rightarrow> libcall list \<Rightarrow> process \<Rightarrow> process" where
  "run pf [] p = p"
| "run pf (c # cs) p = (if exit_status p = None then run pf cs (exec pf c p) else p)"

record siginfo_t =
  si_addr :: addr
  si_code :: int

text \<open>
  \<^verbatim>\<open>
  static void segfault_handler(int sig, siginfo_t *si, void *unused) {
      void *array[100];
      int size;
      fprintf(stderr, "\n=== SIGNAL %d CAUGHT ===\n", sig);
      fprintf(stderr, "Fault address: %p\n", si->si_addr);
      fprintf(stderr, "SI code: %d\n", si->si_code);
      size = backtrace(array, 100);
      fprintf(stderr, "\nBacktrace (%d frames):\n", size);
      backtrace_symbols_fd(array, size, STDERR_FILENO);
      _exit(128 + sig);
  }
  \<close>
  The handler is straight-line code: the list of its calls. \<open>stack\<close> is the chain of return
  addresses at the point of delivery, innermost first; \<open>backtrace(array, 100)\<close> stores the
  first hundred of them, or all when there are fewer, and returns their number.
\<close>

definition backtrace :: "addr list \<Rightarrow> nat \<Rightarrow> addr list" where
  "backtrace stack n = take n stack"

definition segfault_handler :: "platform \<Rightarrow> addr list \<Rightarrow> int \<Rightarrow> siginfo_t \<Rightarrow> libcall list" where
  "segfault_handler pf stack sig si =
     (let array = backtrace stack 100;
          size = int (length array)
      in [Fprintf_stderr (nl @ ''=== SIGNAL '' @ fmt_d sig @ '' CAUGHT ==='' @ nl),
          Fprintf_stderr (''Fault address: '' @ fmt_p pf (si_addr si) @ nl),
          Fprintf_stderr (''SI code: '' @ fmt_d (si_code si) @ nl),
          Backtrace 100,
          Fprintf_stderr (nl @ ''Backtrace ('' @ fmt_d size @ '' frames):'' @ nl),
          Backtrace_symbols_fd array STDERR_FILENO,
          Underscore_exit (128 + sig)])"

text \<open>
  Delivery of a signal: the kernel runs the handler registered for it. A signal with no
  registered handler is none of the shim's business (\<open>None\<close>).
\<close>

definition deliver :: "platform \<Rightarrow> addr list \<Rightarrow> int \<Rightarrow> siginfo_t \<Rightarrow> process \<Rightarrow> process option" where
  "deliver pf stack sig si p =
     (case handlers p sig of
        None \<Rightarrow> None
      | Some sa \<Rightarrow>
          (case sa_sigaction sa of
             Segfault_handler \<Rightarrow> Some (run pf (segfault_handler pf stack sig si) p)))"

text \<open>
  The operations a signal handler may use, in the words of the spec: direct
  file-descriptor writes, \<open>_exit\<close>-equivalent termination and backtrace capture; no heap
  allocation, no locale-aware formatting, no buffered streams. \<open>fprintf\<close> formats through
  a stdio stream.
\<close>

fun async_signal_safe :: "libcall \<Rightarrow> bool" where
  "async_signal_safe (Fprintf_stderr s) = False"
| "async_signal_safe (Backtrace n) = True"
| "async_signal_safe (Backtrace_symbols_fd frames fd) = True"
| "async_signal_safe (Underscore_exit status) = True"

text \<open>
  \<^verbatim>\<open>
  static void install_handler(void) {
      stack_t ss;
      ss.ss_sp = malloc(65536);
      ss.ss_size = 65536;
      ss.ss_flags = 0;
      sigaltstack(&ss, NULL);
      struct sigaction sa;
      memset(&sa, 0, sizeof(sa));
      sa.sa_flags = SA_SIGINFO | SA_ONSTACK;
      sigemptyset(&sa.sa_mask);
      sa.sa_sigaction = segfault_handler;
      sigaction(SIGSEGV, &sa, NULL);
      sigaction(SIGABRT, &sa, NULL);
      sigaction(SIGBUS, &sa, NULL);
      fprintf(stderr, "[seghandler] Signal handlers installed\n");
  }
  \<close>
  \<open>malloc\<close>, \<open>sigaltstack\<close> and \<open>sigaction\<close> can fail; how each call of one run turns out
  is given by \<open>outcomes\<close>. A failed \<open>malloc\<close> returns the null pointer, a failed
  \<open>sigaltstack\<close> or \<open>sigaction\<close> changes nothing and returns \<open>-1\<close>. The source reads none
  of the results.
\<close>

record outcomes =
  malloc_result :: "addr ptr"
  sigaltstack_ok :: bool
  sigaction_ok :: "int \<Rightarrow> bool"

definition sigaltstack :: "outcomes \<Rightarrow> stack_t \<Rightarrow> process \<Rightarrow> int \<times> process" where
  "sigaltstack env ss p =
     (if sigaltstack_ok env then (0, p\<lparr>alt_stack := Some ss\<rparr>) else (- 1, p))"

definition sigaction :: "outcomes \<Rightarrow> int \<Rightarrow> sigaction_t \<Rightarrow> process \<Rightarrow> int \<times> process" where
  "sigaction env sig sa p =
     (if sigaction_ok env sig then (0, p\<lparr>handlers := (handlers p)(sig \<mapsto> sa)\<rparr>) else (- 1, p))"

definition install_handler :: "platform \<Rightarrow> outcomes \<Rightarrow> process \<Rightarrow> process" where
  "install_handler pf env p =
     (let ss = \<lparr>ss_sp = malloc_result env, ss_size = 65536, ss_flags = 0\<rparr>;
          p1 = snd (sigaltstack env ss p);
          sa = \<lparr>sa_sigaction = Segfault_handler, sa_flags = {SA_SIGINFO, SA_ONSTACK},
                sa_mask = {}\<rparr>;
          p2 = snd (sigaction env (SIGSEGV pf) sa p1);
          p3 = snd (sigaction env (SIGABRT pf) sa p2);
          p4 = snd (sigaction env (SIGBUS pf) sa p3)
      in exec pf (Fprintf_stderr (''[seghandler] Signal handlers installed'' @ nl)) p4)"

text \<open>
  A platform with the signal numbers of Linux, where \<open>%p\<close> prints \<open>(nil)\<close> for the null
  pointer and the address in hexadecimal otherwise, and a frame without symbol
  information gives its address in brackets; a process that has just started; and a run
  of the installation in which every call fails.
\<close>

definition hex_digit :: "nat \<Rightarrow> char" where
  "hex_digit d = ''0123456789abcdef'' ! d"

fun hex :: "nat \<Rightarrow> string" where
  "hex n = (if n < 16 then [hex_digit n] else hex (n div 16) @ [hex_digit (n mod 16)])"

declare hex.simps [simp del]

definition linux :: platform where
  "linux = \<lparr>SIGSEGV = 11, SIGABRT = 6, SIGBUS = 7,
            fmt_p = (\<lambda>a. if a = 0 then ''(nil)'' else ''0x'' @ hex a),
            symbol_line = (\<lambda>a. ''[0x'' @ hex a @ '']'')\<rparr>"

definition started :: process where
  "started = \<lparr>stderr_out = [], stderr_buf = [], stderr_mode = Unbuffered, exit_status = None,
              alt_stack = None, handlers = Map.empty\<rparr>"

definition all_fail :: outcomes where
  "all_fail = \<lparr>malloc_result = Null, sigaltstack_ok = False, sigaction_ok = (\<lambda>sig. False)\<rparr>"

text \<open>
  A run of the installation in which every call succeeds, and a host that, once started
  with the shim installed, makes \<open>stderr\<close> fully buffered:
  \<open>setvbuf(stderr, NULL, _IOFBF, 8192)\<close>.
\<close>

definition all_ok :: outcomes where
  "all_ok = \<lparr>malloc_result = Ptr 6291456, sigaltstack_ok = True, sigaction_ok = (\<lambda>sig. True)\<rparr>"


section \<open>Lemmas on the Newton loop and on rounding\<close>

lemma newton_loop_funpow:
  "i \<le> 10 \<Longrightarrow> newton_loop x i g =
     ((\<lambda>g. double_div (double_add g (double_div x g)) two) ^^ (10 - i)) g"
proof (induction x i g rule: newton_loop.induct)
  case (1 x i guess)
  define f where "f = (\<lambda>g. double_div (double_add g (double_div x g)) two)"
  show ?case
  proof (cases "i < 10")
    case True
    then have d: "10 - i = Suc (10 - (i + 1))" by simp
    have "newton_loop x i guess = newton_loop x (i + 1) (f guess)"
      using True by (subst newton_loop.simps) (simp add: f_def)
    also have "\<dots> = (f ^^ (10 - (i + 1))) (f guess)"
      using 1 True by (simp add: f_def)
    also have "\<dots> = (f ^^ (10 - i)) guess"
      unfolding d by (simp only: funpow_Suc_right o_apply)
    finally show ?thesis by (simp only: f_def)
  next
    case False
    with 1 show ?thesis by (simp add: newton_loop.simps)
  qed
qed

lemma last_newton_guesses: "last (newton_guesses x i g) = newton_loop x i g"
proof (induction x i g rule: newton_guesses.induct)
  case (1 x i guess)
  show ?case
  proof (cases "i < 10")
    case True
    have ne: "newton_guesses x j g' \<noteq> []" for j g'
      by (subst newton_guesses.simps) simp
    from True 1 show ?thesis
      by (subst newton_guesses.simps, subst newton_loop.simps) (simp add: ne)
  next
    case False
    then show ?thesis by (simp add: newton_guesses.simps newton_loop.simps)
  qed
qed

lemma length_newton_guesses: "i \<le> 10 \<Longrightarrow> length (newton_guesses x i g) = 11 - i"
proof (induction x i g rule: newton_guesses.induct)
  case (1 x i guess)
  show ?case
  proof (cases "i < 10")
    case True
    with 1 show ?thesis
      by (subst newton_guesses.simps) simp
  next
    case False
    with 1 show ?thesis by (simp add: newton_guesses.simps)
  qed
qed

lemma bit_length_lower: "0 < n \<Longrightarrow> 2 ^ (bit_length n - 1) \<le> n"
proof (induction n rule: bit_length.induct)
  case (1 n)
  show ?case
  proof (cases "n div 2 = 0")
    case True
    with 1(2) have "n = 1" by presburger
    then show ?thesis by (simp add: bit_length.simps)
  next
    case False
    with 1 have ih: "2 ^ (bit_length (n div 2) - 1) \<le> n div 2" by simp
    from False have "0 < bit_length (n div 2)" by (subst bit_length.simps) simp
    then have "bit_length n - 1 = Suc (bit_length (n div 2) - 1)"
      using 1(2) by (subst bit_length.simps) simp
    then have "(2::nat) ^ (bit_length n - 1) = 2 * 2 ^ (bit_length (n div 2) - 1)" by simp
    also have "\<dots> \<le> 2 * (n div 2)" using ih by simp
    also have "\<dots> \<le> n" by simp
    finally show ?thesis .
  qed
qed

lemma round_nearest_even_lower: "a div b \<le> round_nearest_even a b"
  by (simp add: round_nearest_even_def Let_def)

lemma round_to_double_lower:
  assumes b: "0 < b" and n: "n * b \<le> a" and small: "n \<le> 2 ^ 52"
  shows "round_to_double s a b = Inf s \<or> (\<exists>k\<ge>n. round_to_double s a b = Fin s k)"
proof -
  define q where "q = a div b"
  define e where "e = bit_length q - 53"
  define m where "m = round_nearest_even a (b * 2 ^ e)"
  have nq: "n \<le> q" using b n by (simp add: q_def less_eq_div_iff_mult_less_eq)
  have "q div 2 ^ e \<le> m"
    unfolding m_def q_def using round_nearest_even_lower [of a "b * 2 ^ e"]
    by (simp add: div_mult2_eq)
  moreover have "n \<le> q div 2 ^ e * 2 ^ e"
  proof (cases "e = 0")
    case True
    with nq show ?thesis by simp
  next
    case False
    then have bl: "bit_length q - 1 = 52 + e" and qpos: "0 < q"
      by (auto simp: e_def bit_length.simps [of q] split: if_splits)
    from bit_length_lower [OF qpos] bl have "2 ^ 52 * 2 ^ e \<le> q" by (simp add: power_add)
    then have "2 ^ 52 \<le> q div 2 ^ e" by (simp add: less_eq_div_iff_mult_less_eq)
    then have "2 ^ 52 * 1 \<le> q div 2 ^ e * 2 ^ e"
      by (intro mult_le_mono) simp_all
    with small show ?thesis by simp
  qed
  ultimately have "n \<le> m * 2 ^ e"
    by (meson le_trans mult_le_mono1)
  then show ?thesis
    unfolding round_to_double_def Let_def q_def [symmetric] e_def [symmetric] m_def [symmetric]
    by simp
qed

lemma one_units_pos: "0 < one_units"
  by (simp only: one_units_def zero_less_power zero_less_numeral)

lemma overflow_units_pos: "0 < overflow_units"
  by (simp only: overflow_units_def one_units_def zero_less_power zero_less_numeral
      nat_0_less_mult_iff simp_thms)

lemma bit_length_0: "bit_length 0 = 0"
  by (simp add: bit_length.simps)

lemma round_to_double_half_unit: "0 < p \<Longrightarrow> round_to_double s p (2 * p) = Fin s 0"
  using overflow_units_pos
  by (simp add: round_to_double_def round_nearest_even_def Let_def bit_length_0)

lemma round_to_double_cases:
  "round_to_double s a b = Inf s \<or> (\<exists>k. round_to_double s a b = Fin s k)"
  by (simp add: round_to_double_def Let_def)

text \<open>A guess the loop can divide by and go on: plus infinity or a finite value above zero.\<close>

lemma double_lt_zero_iff:
  "double_lt zero g \<longleftrightarrow> g = Inf False \<or> (\<exists>k>0. g = Fin False k)"
  by (cases g) (auto simp: zero_def signed_units_def)

lemma half_positive:
  assumes "2 \<le> k"
  shows "double_lt zero (double_div (Fin False k) two)"
proof -
  have "1 * (2 * one_units) \<le> k * one_units"
    using assms by simp
  from round_to_double_lower [OF _ this, of False] one_units_pos
  show ?thesis
    by (auto simp: double_lt_zero_iff two_def)
qed

lemma half_positive_cases:
  assumes "g = Inf False \<or> (\<exists>k\<ge>2. g = Fin False k)"
  shows "double_lt zero (double_div g two)"
  using assms half_positive one_units_pos by (auto simp: two_def zero_def)

lemma quotient_large:
  assumes "2 \<le> kx"
  shows "double_div (Fin False kx) (Fin False (Suc 0)) = Inf False
     \<or> (\<exists>k\<ge>2. double_div (Fin False kx) (Fin False (Suc 0)) = Fin False k)"
proof -
  have "2 * 1 \<le> kx * one_units"
    using assms one_units_pos by (intro mult_le_mono) simp_all
  from round_to_double_lower [OF _ this, of False]
  show ?thesis by simp
qed

lemma quotient_nonneg:
  assumes "0 < kg"
  shows "double_div (Fin False kx) (Fin False kg) = Inf False
     \<or> (\<exists>k. double_div (Fin False kx) (Fin False kg) = Fin False k)"
  using assms round_to_double_cases [of False "kx * one_units" kg] by simp

lemma sum_lower:
  assumes "2 \<le> a + b"
  shows "double_add (Fin False a) (Fin False b) = Inf False
     \<or> (\<exists>k\<ge>2. double_add (Fin False a) (Fin False b) = Fin False k)"
proof -
  have "2 * 1 \<le> a + b" using assms by simp
  from round_to_double_lower [OF _ this, of False]
  show ?thesis by simp
qed

lemma newton_step_positive:
  assumes x: "2 \<le> kx" and g: "double_lt zero g"
  shows "double_lt zero (double_div (double_add g (double_div (Fin False kx) g)) two)"
proof -
  from g consider "g = Inf False" | k where "g = Fin False k" "0 < k"
    by (auto simp: double_lt_zero_iff)
  then have "double_add g (double_div (Fin False kx) g) = Inf False
      \<or> (\<exists>k\<ge>2. double_add g (double_div (Fin False kx) g) = Fin False k)"
  proof cases
    case 1
    then show ?thesis by simp
  next
    case (2 k)
    define q where "q = double_div (Fin False kx) (Fin False k)"
    have "q = Inf False \<or> (\<exists>kq. q = Fin False kq \<and> 2 \<le> k + kq)"
    proof (cases "k = 1")
      case True
      with quotient_large [OF x] show ?thesis
        unfolding q_def by auto
    next
      case False
      with 2 have "2 \<le> k" by simp
      with quotient_nonneg [OF 2(2), of kx] show ?thesis
        unfolding q_def by auto
    qed
    then have "double_add (Fin False k) q = Inf False
      \<or> (\<exists>k'\<ge>2. double_add (Fin False k) q = Fin False k')"
    proof (elim disjE exE conjE)
      assume "q = Inf False"
      then show ?thesis by simp
    next
      fix kq assume "q = Fin False kq" "2 \<le> k + kq"
      with sum_lower [of k kq] show ?thesis by (simp only:)
    qed
    then show ?thesis
      unfolding q_def 2(1) .
  qed
  then show ?thesis by (rule half_positive_cases)
qed

lemma newton_guesses_positive:
  assumes "2 \<le> kx"
  shows "double_lt zero g \<Longrightarrow> list_all (double_lt zero) (newton_guesses (Fin False kx) i g)"
proof (induction "Fin False kx" i g rule: newton_guesses.induct)
  case (1 i guess)
  show ?case
  proof (cases "i < 10")
    case True
    with 1 newton_step_positive [OF assms 1(2)] show ?thesis
      by (subst newton_guesses.simps) simp
  next
    case False
    with 1 show ?thesis by (simp add: newton_guesses.simps)
  qed
qed

lemma funpow_fixed: "f x = x \<Longrightarrow> (f ^^ n) x = x"
  by (induction n) simp_all

lemma one_less_overflow_units: "1 < overflow_units"
proof -
  have "(1::nat) < 2 ^ 1024" by (rule one_less_power) simp_all
  also have "\<dots> \<le> 2 ^ 1024 * one_units" using one_units_pos by simp
  finally show ?thesis by (simp only: overflow_units_def)
qed

subsection \<open>The operations stay within the doubles\<close>

text \<open>
  Rounding yields an infinity or a magnitude a binary64 holds, so division and addition
  return doubles whatever they are given, and so does \<open>testmath_sqrt_approx\<close>.
\<close>

lemma bit_length_upper: "n < 2 ^ bit_length n"
proof (induction n rule: bit_length.induct)
  case (1 n)
  show ?case
  proof (cases "n = 0")
    case True
    then show ?thesis by simp
  next
    case False
    with 1 have "n div 2 < 2 ^ bit_length (n div 2)" by simp
    then have "n < 2 * 2 ^ bit_length (n div 2)" by linarith
    with False show ?thesis by (subst bit_length.simps) simp
  qed
qed

lemma bit_length_le: "n < 2 ^ j \<Longrightarrow> bit_length n \<le> j"
proof (induction n arbitrary: j rule: bit_length.induct)
  case (1 n)
  show ?case
  proof (cases "n = 0")
    case True
    then show ?thesis by (simp add: bit_length.simps)
  next
    case False
    with 1(2) obtain i where j: "j = Suc i" by (cases j) auto
    with 1(2) have "n div 2 < 2 ^ i" by simp
    with 1(1) [OF False] have "bit_length (n div 2) \<le> i" by simp
    with False j show ?thesis by (subst bit_length.simps) simp
  qed
qed

lemma round_nearest_even_upper: "round_nearest_even a b \<le> a div b + 1"
  by (simp add: round_nearest_even_def Let_def)

lemma significand_bound:
  assumes "0 < b"
  shows "round_nearest_even a (b * 2 ^ (bit_length (a div b) - 53)) \<le> 2 ^ 53"
proof -
  define q where "q = a div b"
  define e where "e = bit_length q - 53"
  have "bit_length q \<le> 53 + e"
    by (simp add: e_def)
  then have "(2::nat) ^ bit_length q \<le> 2 ^ (53 + e)"
    by (rule power_increasing) simp
  with bit_length_upper [of q] have "q < 2 ^ (53 + e)"
    by (rule less_le_trans)
  then have "q < 2 ^ 53 * 2 ^ e" by (simp only: power_add)
  then have "q div 2 ^ e < 2 ^ 53"
    by (simp add: less_mult_imp_div_less)
  moreover have "a div (b * 2 ^ e) = q div 2 ^ e"
    by (simp add: q_def div_mult2_eq)
  ultimately show ?thesis
    using round_nearest_even_upper [of a "b * 2 ^ e"]
    unfolding e_def q_def by simp
qed

lemma bit_length_shift: "0 < m \<Longrightarrow> bit_length (m * 2 ^ e) = bit_length m + e"
proof (induction e)
  case 0
  then show ?case by simp
next
  case (Suc e)
  have "bit_length (m * 2 ^ Suc e) = Suc (bit_length (m * 2 ^ Suc e div 2))"
    using Suc.prems by (subst bit_length.simps) simp
  also have "m * 2 ^ Suc e div 2 = m * 2 ^ e" by simp
  finally show ?case using Suc by simp
qed

lemma bit_length_power: "bit_length (2 ^ n) = Suc n"
  using bit_length_shift [of 1 n] by (simp add: bit_length.simps [of "Suc 0"] bit_length.simps [of 0])

lemma representable_scaled:
  assumes m: "m \<le> 2 ^ 53" and k: "m * 2 ^ e < overflow_units"
  shows "representable (m * 2 ^ e)"
proof (cases "m = 0")
  case True
  with k show ?thesis by (simp add: representable_def)
next
  case False
  then have mpos: "0 < m" by simp
  have len: "bit_length (m * 2 ^ e) = bit_length m + e"
    using mpos by (rule bit_length_shift)
  show ?thesis
  proof (cases "m = 2 ^ 53")
    case True
    then have pow: "m * 2 ^ e = 2 ^ (53 + e)"
      by (simp only: power_add)
    then have "bit_length (m * 2 ^ e) = Suc (53 + e)"
      by (simp only: bit_length_power)
    then have "bit_length (m * 2 ^ e) - 53 = Suc e"
      by simp
    moreover have "m * 2 ^ e = 2 ^ 52 * 2 ^ Suc e"
      unfolding pow by (simp only: power_add [symmetric]) simp
    ultimately show ?thesis
      using k unfolding representable_def by (metis mod_mult_self2_is_0)
  next
    case False
    with m have "m < 2 ^ 53" by simp
    then have "bit_length m \<le> 53" by (rule bit_length_le)
    then have "bit_length (m * 2 ^ e) - 53 \<le> e"
      by (simp add: len)
    then have "(2::nat) ^ (bit_length (m * 2 ^ e) - 53) dvd 2 ^ e"
      by (rule le_imp_power_dvd)
    then have "2 ^ (bit_length (m * 2 ^ e) - 53) dvd m * 2 ^ e"
      by (rule dvd_mult)
    then have "m * 2 ^ e mod 2 ^ (bit_length (m * 2 ^ e) - 53) = 0"
      by (simp only: mod_eq_0_iff_dvd)
    with k show ?thesis by (simp add: representable_def)
  qed
qed

lemma is_double_round_to_double: "0 < b \<Longrightarrow> is_double (round_to_double s a b)"
  using significand_bound [of b a]
  by (auto simp: round_to_double_def Let_def not_le intro: representable_scaled)

lemma representable_0: "representable 0"
  using overflow_units_pos by (simp add: representable_def)

lemma is_double_double_div: "is_double (double_div x y)"
  by (cases x; cases y) (simp_all add: is_double_round_to_double representable_0)

lemma is_double_double_add: "is_double (double_add x y)"
  by (cases x; cases y) (simp_all add: is_double_round_to_double representable_0)

lemma is_double_newton_loop: "is_double g \<Longrightarrow> is_double (newton_loop x i g)"
proof (induction x i g rule: newton_loop.induct)
  case (1 x i guess)
  then show ?case
    by (subst newton_loop.simps) (simp add: is_double_double_div)
qed

lemma is_double_testmath_sqrt_approx: "is_double (testmath_sqrt_approx x)"
  by (simp add: testmath_sqrt_approx_def is_double_newton_loop is_double_double_div
      zero_def representable_0)

section \<open>Lemmas on the companions\<close>

lemma store_slot_valid: "m a = Some old \<Longrightarrow> store_slot (Ptr a) v m = Some (m(a \<mapsto> v))"
  by (simp add: store_slot_def)

lemma store_slot_Some:
  "store_slot sign v m = Some m' \<Longrightarrow> \<exists>a. sign = Ptr a \<and> m' = m(a \<mapsto> v)"
  by (auto simp: store_slot_def split: ptr.splits option.splits)

lemma hlp_add_Some:
  "hlp_add sign m = Some (p, m') \<Longrightarrow>
     p = Ptr Testmath_add \<and> (\<exists>a. sign = Ptr a \<and> m' = m(a \<mapsto> Ptr (string_literal ''ii_i'')))"
  by (auto simp: hlp_add_def split: option.splits dest: store_slot_Some)

lemma hlp_multiply_Some:
  "hlp_multiply sign m = Some (p, m') \<Longrightarrow>
     p = Ptr Testmath_multiply
     \<and> (\<exists>a. sign = Ptr a \<and> m' = m(a \<mapsto> Ptr (string_literal ''ii_i'')))"
  by (auto simp: hlp_multiply_def split: option.splits dest: store_slot_Some)

lemma hlp_sqrt_approx_Some:
  "hlp_sqrt_approx sign m = Some (p, m') \<Longrightarrow>
     p = Ptr Testmath_sqrt_approx
     \<and> (\<exists>a. sign = Ptr a \<and> m' = m(a \<mapsto> Ptr (string_literal ''d_d'')))"
  by (auto simp: hlp_sqrt_approx_def split: option.splits dest: store_slot_Some)

lemma c_str_string_literal_ii_i: "c_str (string_literal ''ii_i'') = ''ii_i''"
  by (simp add: c_str_def string_literal_def NUL_def)

lemma c_str_string_literal_d_d: "c_str (string_literal ''d_d'') = ''d_d''"
  by (simp add: c_str_def string_literal_def NUL_def)

lemma parse_signature_ii_i: "parse_signature ''ii_i'' = Some ([HI32, HI32], HI32)"
  by (simp add: parse_signature_def type_of_code_def)

lemma parse_signature_d_d: "parse_signature ''d_d'' = Some ([HF64], HF64)"
  by (simp add: parse_signature_def type_of_code_def)

lemma two_ints:
  assumes "map value_type args = [HI32, HI32]"
  obtains a b where "args = [VInt a, VInt b]"
proof -
  from assms obtain u v where args: "args = [u, v]"
    by (cases args; cases "tl args") auto
  with assms that show ?thesis
    by (cases u; cases v) simp_all
qed

lemma one_double:
  assumes "map value_type args = [HF64]"
  obtains x where "args = [VDouble x]"
proof -
  from assms obtain u where args: "args = [u]"
    by (cases args) auto
  with assms that show ?thesis
    by (cases u) simp_all
qed

text \<open>Each entry of \<open>companions\<close> returns the primitive it is the companion of.\<close>

lemma companions_return:
  "map_of companions (companion_symbol P) = Some h \<Longrightarrow> m a = Some old \<Longrightarrow>
     \<exists>m'. h (Ptr a) m = Some (Ptr P, m')"
  by (cases P)
    (auto simp: companions_def hlp_add_def hlp_multiply_def hlp_sqrt_approx_def
      store_slot_valid)

section \<open>Lemmas on the shim\<close>

lemma flush_point_newline:
  assumes "mode = Unbuffered \<or> mode = Line_buffered" and "s \<noteq> []" and "last s = CHR 0x0A"
  shows "flush_point mode (buf @ s) = length (buf @ s)"
proof -
  define b where "b = butlast s"
  from assms(2,3) have "s = b @ [CHR 0x0A]"
    unfolding b_def by (metis append_butlast_last_id)
  then have "rev (buf @ s) = CHR 0x0A # rev b @ rev buf"
    by simp
  then have "takeWhile (\<lambda>c. c \<noteq> CHR 0x0A) (rev (buf @ s)) = []"
    by (simp only: takeWhile.simps) simp
  with assms(1) show ?thesis
    by auto
qed

lemma fprintf_line_reaches_descriptor:
  assumes "stderr_mode p = Unbuffered \<or> stderr_mode p = Line_buffered"
    and "s \<noteq> []" and "last s = CHR 0x0A"
  shows "exec pf (Fprintf_stderr s) p
    = p\<lparr>stderr_out := stderr_out p @ stderr_buf p @ s, stderr_buf := []\<rparr>"
  using flush_point_newline [OF assms, of "stderr_buf p"] by (simp add: Let_def)

lemma fprintf_nothing_lost_yet:
  "stderr_out (exec pf (Fprintf_stderr s) p) @ stderr_buf (exec pf (Fprintf_stderr s) p)
     = stderr_out p @ stderr_buf p @ s"
  by (simp add: Let_def del: take_append drop_append)

lemma fprintf_other_fields:
  "exit_status (exec pf (Fprintf_stderr s) p) = exit_status p"
  "stderr_mode (exec pf (Fprintf_stderr s) p) = stderr_mode p"
  "alt_stack (exec pf (Fprintf_stderr s) p) = alt_stack p"
  "handlers (exec pf (Fprintf_stderr s) p) = handlers p"
  by (simp_all add: Let_def)

text \<open>
  While \<open>stderr\<close> is unbuffered or line buffered, every line the handler formats reaches
  the descriptor before the next call, and the report is complete and in order.
\<close>

lemma segfault_handler_reports_unless_fully_buffered:
  assumes "0 < sig" and "sig < 128" and "exit_status p = None"
    and "handlers p sig = Some sa"
    and "stderr_mode p = Unbuffered \<or> stderr_mode p = Line_buffered"
  shows "deliver pf stack sig si p =
           Some (p\<lparr>stderr_out := stderr_out p @ stderr_buf p
                 @ nl @ ''=== SIGNAL '' @ fmt_d sig @ '' CAUGHT ==='' @ nl
                 @ ''Fault address: '' @ fmt_p pf (si_addr si) @ nl
                 @ ''SI code: '' @ fmt_d (si_code si) @ nl
                 @ nl @ ''Backtrace ('' @ fmt_d (int (length (take 100 stack))) @ '' frames):'' @ nl
                 @ concat (map (\<lambda>f. symbol_line pf f @ nl) (take 100 stack)),
              stderr_buf := [],
              exit_status := Some (nat (128 + sig))\<rparr>)"
proof -
  from assms(1,2) have status: "(128 + sig) mod 256 = 128 + sig" by simp
  have sa: "sa_sigaction sa = Segfault_handler" by (cases "sa_sigaction sa") simp
  define l1 where "l1 = nl @ ''=== SIGNAL '' @ fmt_d sig @ '' CAUGHT ==='' @ nl"
  define l2 where "l2 = ''Fault address: '' @ fmt_p pf (si_addr si) @ nl"
  define l3 where "l3 = ''SI code: '' @ fmt_d (si_code si) @ nl"
  define l4 where
    "l4 = nl @ ''Backtrace ('' @ fmt_d (int (length (take 100 stack))) @ '' frames):'' @ nl"
  have ends: "l1 \<noteq> [] \<and> last l1 = CHR 0x0A" "l2 \<noteq> [] \<and> last l2 = CHR 0x0A"
    "l3 \<noteq> [] \<and> last l3 = CHR 0x0A" "l4 \<noteq> [] \<and> last l4 = CHR 0x0A"
    by (simp_all add: l1_def l2_def l3_def l4_def nl_def)
  define p1 where "p1 = exec pf (Fprintf_stderr l1) p"
  define p2 where "p2 = exec pf (Fprintf_stderr l2) p1"
  define p3 where "p3 = exec pf (Fprintf_stderr l3) p2"
  define p4 where "p4 = exec pf (Fprintf_stderr l4) p3"
  have p1: "p1 = p\<lparr>stderr_out := stderr_out p @ stderr_buf p @ l1, stderr_buf := []\<rparr>"
    unfolding p1_def using assms(5) ends(1) by (intro fprintf_line_reaches_descriptor) simp_all
  have p2: "p2 = p1\<lparr>stderr_out := stderr_out p1 @ stderr_buf p1 @ l2, stderr_buf := []\<rparr>"
    unfolding p2_def using assms(5) ends(2)
    by (intro fprintf_line_reaches_descriptor) (simp_all add: p1)
  have p3: "p3 = p2\<lparr>stderr_out := stderr_out p2 @ stderr_buf p2 @ l3, stderr_buf := []\<rparr>"
    unfolding p3_def using assms(5) ends(3)
    by (intro fprintf_line_reaches_descriptor) (simp_all add: p1 p2)
  have p4: "p4 = p3\<lparr>stderr_out := stderr_out p3 @ stderr_buf p3 @ l4, stderr_buf := []\<rparr>"
    unfolding p4_def using assms(5) ends(4)
    by (intro fprintf_line_reaches_descriptor) (simp_all add: p1 p2 p3)
  have "run pf (segfault_handler pf stack sig si) p
      = run pf [Backtrace_symbols_fd (take 100 stack) STDERR_FILENO, Underscore_exit (128 + sig)] p4"
    using assms(3)
    by (simp add: segfault_handler_def backtrace_def Let_def p4_def p3_def p2_def p1_def
        l1_def l2_def l3_def l4_def fprintf_other_fields del: exec.simps(1))
  also have "\<dots> = p\<lparr>stderr_out := stderr_out p @ stderr_buf p @ l1 @ l2 @ l3 @ l4
        @ concat (map (\<lambda>f. symbol_line pf f @ nl) (take 100 stack)),
      stderr_buf := [], exit_status := Some (nat (128 + sig))\<rparr>"
    using assms(3) status by (simp add: p4 p3 p2 p1)
  finally show ?thesis
    using assms(4) sa by (simp add: deliver_def l1_def l2_def l3_def l4_def)
qed

section \<open>Theorems\<close>

text \<open>
  C1: for every double \<open>x\<close>, \<open>testmath_sqrt_approx\<close> returns exactly \<open>0.0\<close> when
  \<open>x <= 0.0\<close>, and otherwise the result of exactly ten applications of the Newton update
  \<open>g \<mapsto> (g + x / g) / 2\<close> to the initial guess \<open>x / 2\<close>, whatever the values met on the way.
  In particular \<open>0.0\<close>, \<open>-0.0\<close>, \<open>-1.0\<close> and minus infinity all give the positive zero.
\<close>

theorem testmath_sqrt_approx_ten_newton_steps:
  "testmath_sqrt_approx x =
     (if double_le x zero then zero
      else ((\<lambda>g. double_div (double_add g (double_div x g)) two) ^^ 10) (double_div x two))
   \<and> testmath_sqrt_approx (Fin False 0) = Fin False 0
   \<and> testmath_sqrt_approx (Fin True 0) = Fin False 0
   \<and> testmath_sqrt_approx (Fin True one_units) = Fin False 0
   \<and> testmath_sqrt_approx (Inf True) = Fin False 0"
  by (simp add: testmath_sqrt_approx_def newton_loop_funpow zero_def signed_units_def)


text \<open>
  C3, as stated, fails. In a run where \<open>malloc\<close>, \<open>sigaltstack\<close> and every \<open>sigaction\<close>
  fail, nothing is installed, no diagnostic is written, and the confirmation line is the
  whole output.
\<close>

theorem install_failure_counterexample:
  "malloc_result all_fail = Null \<and> \<not> sigaltstack_ok all_fail
   \<and> \<not> sigaction_ok all_fail (SIGSEGV linux)
   \<and> alt_stack (install_handler linux all_fail started) = None
   \<and> handlers (install_handler linux all_fail started) = Map.empty
   \<and> stderr_out (install_handler linux all_fail started)
       = ''[seghandler] Signal handlers installed'' @ nl"
  by (simp add: install_handler_def all_fail_def started_def sigaltstack_def sigaction_def)

text \<open>
  C3, amended: whether or not the allocation of the alternate stack or a registration
  fails, \<open>install_handler\<close> prints the confirmation line and nothing else, and never ends
  the process; a step that fails leaves the process without that part of the protection:
  the alternate stack is registered only when \<open>sigaltstack\<close> succeeds, and a signal gets
  the handler only when its \<open>sigaction\<close> succeeds. The line is added to what \<open>stderr\<close> has
  written or still holds; unless the stream is fully buffered it is on the descriptor
  when \<open>install_handler\<close> returns, as it is in a process that has just started.
\<close>

theorem install_handler_always_confirms_never_fatal:
  "stderr_out (install_handler pf env p) @ stderr_buf (install_handler pf env p)
     = stderr_out p @ stderr_buf p @ ''[seghandler] Signal handlers installed'' @ nl
   \<and> (stderr_mode p = Unbuffered \<or> stderr_mode p = Line_buffered \<longrightarrow>
        stderr_out (install_handler pf env p)
          = stderr_out p @ stderr_buf p @ ''[seghandler] Signal handlers installed'' @ nl
        \<and> stderr_buf (install_handler pf env p) = [])
   \<and> stderr_out (install_handler pf env started)
       = ''[seghandler] Signal handlers installed'' @ nl
   \<and> exit_status (install_handler pf env p) = exit_status p
   \<and> alt_stack (install_handler pf env p)
       = (if sigaltstack_ok env
          then Some \<lparr>ss_sp = malloc_result env, ss_size = 65536, ss_flags = 0\<rparr>
          else alt_stack p)
   \<and> handlers (install_handler pf env p) sig
       = (if sig \<in> {SIGSEGV pf, SIGABRT pf, SIGBUS pf} \<and> sigaction_ok env sig
          then Some \<lparr>sa_sigaction = Segfault_handler, sa_flags = {SA_SIGINFO, SA_ONSTACK},
                     sa_mask = {}\<rparr>
          else handlers p sig)"
proof -
  define line where "line = ''[seghandler] Signal handlers installed'' @ nl"
  have ends: "line \<noteq> []" "last line = CHR 0x0A"
    by (simp_all add: line_def nl_def)
  define q where "q = snd (sigaction env (SIGBUS pf)
      \<lparr>sa_sigaction = Segfault_handler, sa_flags = {SA_SIGINFO, SA_ONSTACK}, sa_mask = {}\<rparr>
      (snd (sigaction env (SIGABRT pf)
        \<lparr>sa_sigaction = Segfault_handler, sa_flags = {SA_SIGINFO, SA_ONSTACK}, sa_mask = {}\<rparr>
        (snd (sigaction env (SIGSEGV pf)
          \<lparr>sa_sigaction = Segfault_handler, sa_flags = {SA_SIGINFO, SA_ONSTACK}, sa_mask = {}\<rparr>
          (snd (sigaltstack env
            \<lparr>ss_sp = malloc_result env, ss_size = 65536, ss_flags = 0\<rparr> p)))))))"
  have inst: "install_handler pf env p = exec pf (Fprintf_stderr line) q"
    by (simp add: install_handler_def Let_def q_def line_def del: exec.simps(1))
  have q: "stderr_out q = stderr_out p" "stderr_buf q = stderr_buf p"
    "stderr_mode q = stderr_mode p" "exit_status q = exit_status p"
    "alt_stack q = (if sigaltstack_ok env
        then Some \<lparr>ss_sp = malloc_result env, ss_size = 65536, ss_flags = 0\<rparr>
        else alt_stack p)"
    "handlers q sig = (if sig \<in> {SIGSEGV pf, SIGABRT pf, SIGBUS pf} \<and> sigaction_ok env sig
        then Some \<lparr>sa_sigaction = Segfault_handler, sa_flags = {SA_SIGINFO, SA_ONSTACK},
                   sa_mask = {}\<rparr>
        else handlers p sig)"
    by (auto simp: q_def sigaltstack_def sigaction_def)
  have all: "stderr_out (install_handler pf env p) @ stderr_buf (install_handler pf env p)
      = stderr_out p @ stderr_buf p @ line"
    unfolding inst using fprintf_nothing_lost_yet [of pf line q] by (simp only: q)
  have flushed: "stderr_out (install_handler pf env p) = stderr_out p @ stderr_buf p @ line
      \<and> stderr_buf (install_handler pf env p) = []"
    if "stderr_mode p = Unbuffered \<or> stderr_mode p = Line_buffered"
  proof -
    from that have "stderr_mode q = Unbuffered \<or> stderr_mode q = Line_buffered"
      by (simp only: q)
    from fprintf_line_reaches_descriptor [OF this ends, of pf] show ?thesis
      unfolding inst by (simp add: q)
  qed
  have start: "stderr_out (install_handler pf env started) = line"
    by (simp add: install_handler_def Let_def sigaltstack_def sigaction_def started_def line_def)
  have rest: "exit_status (install_handler pf env p) = exit_status q"
    "alt_stack (install_handler pf env p) = alt_stack q"
    "handlers (install_handler pf env p) sig = handlers q sig"
    unfolding inst by (simp_all only: fprintf_other_fields)
  show ?thesis
    using all flushed start rest unfolding q line_def by blast
qed

theorem install_handler_always_confirms_never_fatal_witness:
  "stderr_mode started = Unbuffered
   \<and> stderr_out (install_handler linux all_ok started)
       = ''[seghandler] Signal handlers installed'' @ nl
   \<and> stderr_buf (install_handler linux all_ok started) = []
   \<and> exit_status (install_handler linux all_ok started) = None
   \<and> handlers (install_handler linux all_ok started) 11
       = Some \<lparr>sa_sigaction = Segfault_handler, sa_flags = {SA_SIGINFO, SA_ONSTACK},
               sa_mask = {}\<rparr>"
proof -
  have m: "stderr_mode started = Unbuffered" and s: "stderr_out started = []"
    and b: "stderr_buf started = []" and e: "exit_status started = None"
    by (simp_all add: started_def)
  have pf: "SIGSEGV linux = 11" and ok: "sigaction_ok all_ok 11"
    by (simp_all add: linux_def all_ok_def)
  show ?thesis
    using install_handler_always_confirms_never_fatal [of linux all_ok started 11]
    by (simp add: m s b e pf ok)
qed

text \<open>
  C4: for every pair of 32-bit signed integers, \<open>add\<close> returns the sum and \<open>multiply\<close> the
  product of the two signed values, wrapped modulo \<open>2 ^ 32\<close> into the signed range;
  \<open>add(2, 3) = 5\<close>, and one past the largest value wraps to the smallest instead of
  saturating.
\<close>

theorem testmath_add_multiply_wrap:
  "sint (testmath_add a b) = (sint a + sint b + 2 ^ 31) mod 2 ^ 32 - 2 ^ 31
   \<and> sint (testmath_multiply a b) = (sint a * sint b + 2 ^ 31) mod 2 ^ 32 - 2 ^ 31
   \<and> uint (testmath_add a b) = (uint a + uint b) mod 2 ^ 32
   \<and> uint (testmath_multiply a b) = (uint a * uint b) mod 2 ^ 32
   \<and> testmath_add 2 3 = 5
   \<and> sint (testmath_add 2147483647 1) = - 2147483648
   \<and> sint (testmath_multiply 65536 65536) = 0"
  by (simp add: testmath_add_def testmath_multiply_def sint_word_ariths uint_word_ariths
      signed_take_bit_eq_take_bit_shift take_bit_eq_mod)

text \<open>
  C5: called with a valid out-slot, each \<open>hlp_\<close> companion stores in the slot a non-null
  pointer to a static NUL-terminated string, \<open>ii_i\<close> for \<open>add\<close> and \<open>multiply\<close> and
  \<open>d_d\<close> for \<open>sqrt_approx\<close>, which parses as a signature whose codes are those of the
  primitive's declared parameter and return types, and returns the non-null address of
  that primitive; no other slot changes.
\<close>

theorem hlp_companions_signature_and_address:
  assumes "m a = Some old"
  shows "hlp_add (Ptr a) m = Some (Ptr Testmath_add, m(a \<mapsto> Ptr (string_literal ''ii_i'')))
       \<and> hlp_multiply (Ptr a) m
           = Some (Ptr Testmath_multiply, m(a \<mapsto> Ptr (string_literal ''ii_i'')))
       \<and> hlp_sqrt_approx (Ptr a) m
           = Some (Ptr Testmath_sqrt_approx, m(a \<mapsto> Ptr (string_literal ''d_d'')))
       \<and> last (string_literal ''ii_i'') = NUL \<and> c_str (string_literal ''ii_i'') = ''ii_i''
       \<and> last (string_literal ''d_d'') = NUL \<and> c_str (string_literal ''d_d'') = ''d_d''
       \<and> signature_matches ''ii_i'' Testmath_add
       \<and> signature_matches ''ii_i'' Testmath_multiply
       \<and> signature_matches ''d_d'' Testmath_sqrt_approx
       \<and> Ptr (string_literal ''ii_i'') \<noteq> Null \<and> Ptr Testmath_add \<noteq> Null"
proof -
  have "signature_matches ''ii_i'' Testmath_add"
    and "signature_matches ''ii_i'' Testmath_multiply"
    and "signature_matches ''d_d'' Testmath_sqrt_approx"
    by (simp_all add: signature_matches_def parse_signature_ii_i parse_signature_d_d
        declared_signature_def find_function_def testmath_c_def)
  moreover have "last (string_literal ''ii_i'') = NUL" and "last (string_literal ''d_d'') = NUL"
    by (simp_all add: string_literal_def)
  ultimately show ?thesis
    using assms
    by (simp add: hlp_add_def hlp_multiply_def hlp_sqrt_approx_def store_slot_valid
        c_str_string_literal_ii_i c_str_string_literal_d_d)
qed

theorem hlp_companions_signature_and_address_witness:
  "hlp_add (Ptr 0) [0 \<mapsto> Null] = Some (Ptr Testmath_add, [0 \<mapsto> Ptr (string_literal ''ii_i'')])
   \<and> hlp_sqrt_approx (Ptr 0) [0 \<mapsto> Null]
       = Some (Ptr Testmath_sqrt_approx, [0 \<mapsto> Ptr (string_literal ''d_d'')])
   \<and> signature_matches ''ii_i'' Testmath_add"
proof -
  have h: "[0 \<mapsto> Null] (0::nat) = Some (Null :: char list ptr)" by simp
  show ?thesis
    using hlp_companions_signature_and_address [of "[0 \<mapsto> Null]" 0 Null, OF h] by simp
qed

text \<open>
  C6, as stated, fails: the primitive is exported as \<open>testmath_add\<close>, and neither
  \<open>hlp_testmath_add\<close> (its own symbol name with the prefix \<open>hlp_\<close>) nor a symbol \<open>add\<close> is
  exported; the companion is \<open>hlp_add\<close>.
\<close>

theorem companion_name_counterexample:
  "symbol_of Testmath_add \<in> set (exported_symbols testmath_c)
   \<and> ''hlp_'' @ symbol_of Testmath_add \<notin> set (exported_symbols testmath_c)
   \<and> ''add'' \<notin> set (exported_symbols testmath_c)
   \<and> companion_symbol Testmath_add \<noteq> ''hlp_'' @ symbol_of Testmath_add"
  by (simp add: exported_symbols_def testmath_c_def)

text \<open>
  C6, amended: every primitive is exported under a symbol \<open>testmath_N\<close>, and its companion
  is exported under \<open>hlp_N\<close>: the prefix \<open>hlp_\<close> and the primitive's symbol name without the
  library prefix \<open>testmath_\<close>. The function defined under that name is the one that returns
  the primitive's address.
\<close>

theorem primitive_and_companion_exported:
  "symbol_of P \<in> set (exported_symbols testmath_c)
   \<and> companion_symbol P \<in> set (exported_symbols testmath_c)
   \<and> take 9 (symbol_of P) = ''testmath_''
   \<and> companion_symbol P = ''hlp_'' @ drop 9 (symbol_of P)
   \<and> (\<exists>h. map_of companions (companion_symbol P) = Some h
          \<and> map_option fst (h (Ptr 0) [0 \<mapsto> Null]) = Some (Ptr P))"
  by (cases P)
    (simp_all add: exported_symbols_def testmath_c_def companions_def
      hlp_add_def hlp_multiply_def hlp_sqrt_approx_def store_slot_def)

text \<open>
  C7: called on a valid out-slot, each companion returns a code pointer and leaves in the
  slot a signature such that, for every argument list whose types are the signature's
  parameter codes, calling through the pointer is defined and gives the very result of
  calling the primitive directly, of the signature's return type: the sum for
  \<open>hlp_add\<close>, the product for \<open>hlp_multiply\<close>, the Newton result for \<open>hlp_sqrt_approx\<close>.
\<close>

theorem invoke_companion_pointer_is_direct_call:
  assumes "m a = Some old"
  shows "(\<exists>p m' bytes.
            hlp_add (Ptr a) m = Some (p, m') \<and> m' a = Some (Ptr bytes)
          \<and> parse_signature (c_str bytes) = Some ([HI32, HI32], HI32)
          \<and> (\<forall>args. map value_type args = [HI32, HI32] \<longrightarrow>
                (\<exists>r. invoke p args = Some r \<and> call_primitive Testmath_add args = Some r
                     \<and> value_type r = HI32))
          \<and> (\<forall>x y. invoke p [VInt x, VInt y] = Some (VInt (testmath_add x y))))
       \<and> (\<exists>p m' bytes.
            hlp_multiply (Ptr a) m = Some (p, m') \<and> m' a = Some (Ptr bytes)
          \<and> parse_signature (c_str bytes) = Some ([HI32, HI32], HI32)
          \<and> (\<forall>args. map value_type args = [HI32, HI32] \<longrightarrow>
                (\<exists>r. invoke p args = Some r \<and> call_primitive Testmath_multiply args = Some r
                     \<and> value_type r = HI32))
          \<and> (\<forall>x y. invoke p [VInt x, VInt y] = Some (VInt (testmath_multiply x y))))
       \<and> (\<exists>p m' bytes.
            hlp_sqrt_approx (Ptr a) m = Some (p, m') \<and> m' a = Some (Ptr bytes)
          \<and> parse_signature (c_str bytes) = Some ([HF64], HF64)
          \<and> (\<forall>args. map value_type args = [HF64] \<longrightarrow>
                (\<exists>r. invoke p args = Some r \<and> call_primitive Testmath_sqrt_approx args = Some r
                     \<and> value_type r = HF64))
          \<and> (\<forall>x. invoke p [VDouble x] = Some (VDouble (testmath_sqrt_approx x))))"
proof (intro conjI)
  have ints: "\<exists>r. invoke (Ptr P) args = Some r \<and> call_primitive P args = Some r
      \<and> value_type r = HI32"
    if "map value_type args = [HI32, HI32]" and "P = Testmath_add \<or> P = Testmath_multiply"
    for P args
  proof -
    from that(1) obtain x y where "args = [VInt x, VInt y]"
      by (rule two_ints)
    with that(2) show ?thesis by auto
  qed
  have doubles: "\<exists>r. invoke (Ptr Testmath_sqrt_approx) args = Some r
      \<and> call_primitive Testmath_sqrt_approx args = Some r \<and> value_type r = HF64"
    if "map value_type args = [HF64]" for args
  proof -
    from that obtain x where "args = [VDouble x]"
      by (rule one_double)
    then show ?thesis by simp
  qed
  show "\<exists>p m' bytes.
            hlp_add (Ptr a) m = Some (p, m') \<and> m' a = Some (Ptr bytes)
          \<and> parse_signature (c_str bytes) = Some ([HI32, HI32], HI32)
          \<and> (\<forall>args. map value_type args = [HI32, HI32] \<longrightarrow>
                (\<exists>r. invoke p args = Some r \<and> call_primitive Testmath_add args = Some r
                     \<and> value_type r = HI32))
          \<and> (\<forall>x y. invoke p [VInt x, VInt y] = Some (VInt (testmath_add x y)))"
    using assms ints [of _ Testmath_add]
    by (intro exI [of _ "Ptr Testmath_add"] exI [of _ "m(a \<mapsto> Ptr (string_literal ''ii_i''))"]
        exI [of _ "string_literal ''ii_i''"])
      (simp add: hlp_add_def store_slot_valid c_str_string_literal_ii_i parse_signature_ii_i)
  show "\<exists>p m' bytes.
            hlp_multiply (Ptr a) m = Some (p, m') \<and> m' a = Some (Ptr bytes)
          \<and> parse_signature (c_str bytes) = Some ([HI32, HI32], HI32)
          \<and> (\<forall>args. map value_type args = [HI32, HI32] \<longrightarrow>
                (\<exists>r. invoke p args = Some r \<and> call_primitive Testmath_multiply args = Some r
                     \<and> value_type r = HI32))
          \<and> (\<forall>x y. invoke p [VInt x, VInt y] = Some (VInt (testmath_multiply x y)))"
    using assms ints [of _ Testmath_multiply]
    by (intro exI [of _ "Ptr Testmath_multiply"]
        exI [of _ "m(a \<mapsto> Ptr (string_literal ''ii_i''))"] exI [of _ "string_literal ''ii_i''"])
      (simp add: hlp_multiply_def store_slot_valid c_str_string_literal_ii_i
        parse_signature_ii_i)
  show "\<exists>p m' bytes.
            hlp_sqrt_approx (Ptr a) m = Some (p, m') \<and> m' a = Some (Ptr bytes)
          \<and> parse_signature (c_str bytes) = Some ([HF64], HF64)
          \<and> (\<forall>args. map value_type args = [HF64] \<longrightarrow>
                (\<exists>r. invoke p args = Some r \<and> call_primitive Testmath_sqrt_approx args = Some r
                     \<and> value_type r = HF64))
          \<and> (\<forall>x. invoke p [VDouble x] = Some (VDouble (testmath_sqrt_approx x)))"
    using assms doubles
    by (intro exI [of _ "Ptr Testmath_sqrt_approx"]
        exI [of _ "m(a \<mapsto> Ptr (string_literal ''d_d''))"] exI [of _ "string_literal ''d_d''"])
      (simp add: hlp_sqrt_approx_def store_slot_valid c_str_string_literal_d_d
        parse_signature_d_d)
qed

theorem invoke_companion_pointer_is_direct_call_witness:
  "[0 \<mapsto> Null] (0::nat) = Some (Null :: char list ptr)
   \<and> (\<exists>p m'. hlp_add (Ptr 0) [0 \<mapsto> Null] = Some (p, m')
         \<and> invoke p [VInt 2, VInt 3] = Some (VInt 5))
   \<and> (\<exists>p m'. hlp_multiply (Ptr 0) [0 \<mapsto> Null] = Some (p, m')
         \<and> invoke p [VInt 2, VInt 3] = Some (VInt 6))
   \<and> (\<exists>p m'. hlp_sqrt_approx (Ptr 0) [0 \<mapsto> Null] = Some (p, m')
         \<and> invoke p [VDouble (Fin True one_units)] = Some (VDouble (Fin False 0)))"
proof -
  have h: "[0 \<mapsto> Null] (0::nat) = Some (Null :: char list ptr)" by simp
  have v: "testmath_add 2 3 = 5" "testmath_multiply 2 3 = 6"
    "testmath_sqrt_approx (Fin True one_units) = Fin False 0"
    by (simp_all add: testmath_add_def testmath_multiply_def testmath_sqrt_approx_def
        zero_def signed_units_def)
  from invoke_companion_pointer_is_direct_call [of "[0 \<mapsto> Null]" 0 Null, OF h]
  have "(\<exists>p m'. hlp_add (Ptr 0) [0 \<mapsto> Null] = Some (p, m')
         \<and> invoke p [VInt 2, VInt 3] = Some (VInt (testmath_add 2 3)))"
    and "(\<exists>p m'. hlp_multiply (Ptr 0) [0 \<mapsto> Null] = Some (p, m')
         \<and> invoke p [VInt 2, VInt 3] = Some (VInt (testmath_multiply 2 3)))"
    and "(\<exists>p m'. hlp_sqrt_approx (Ptr 0) [0 \<mapsto> Null] = Some (p, m')
         \<and> invoke p [VDouble (Fin True one_units)]
             = Some (VDouble (testmath_sqrt_approx (Fin True one_units))))"
    by blast+
  then show ?thesis
    using h unfolding v by blast
qed

text \<open>
  C8, which the code breaks: four of the handler's seven calls are \<open>fprintf\<close> on the stdio
  stream \<open>stderr\<close>, the first of them its very first call; only the backtrace lines go
  straight to the descriptor.
\<close>

theorem segfault_handler_uses_fprintf:
  "filter (\<lambda>c. \<not> async_signal_safe c) (segfault_handler pf stack sig si) =
     [Fprintf_stderr (nl @ ''=== SIGNAL '' @ fmt_d sig @ '' CAUGHT ==='' @ nl),
      Fprintf_stderr (''Fault address: '' @ fmt_p pf (si_addr si) @ nl),
      Fprintf_stderr (''SI code: '' @ fmt_d (si_code si) @ nl),
      Fprintf_stderr (nl @ ''Backtrace ('' @ fmt_d (int (length (take 100 stack))) @ '' frames):'' @ nl)]
   \<and> \<not> list_all async_signal_safe (segfault_handler pf stack sig si)"
  by (simp add: segfault_handler_def backtrace_def Let_def)

text \<open>
  C9, as stated, fails. The smallest subnormal \<open>x = 2 ^ -1074\<close> is above zero, its half is a
  tie between \<open>0\<close> and \<open>x\<close> and rounds to the even \<open>0.0\<close>: the initial guess is zero, the
  first \<open>x / guess\<close> divides by zero, and the function returns plus infinity. For
  \<open>x\<close> plus infinity no division is by zero, but \<open>x / guess\<close> is \<open>inf / inf\<close> and the guess
  becomes a NaN, which is not above zero.
\<close>

theorem newton_guess_zero_counterexample:
  "is_double (Fin False 1) \<and> double_lt zero (Fin False 1)
   \<and> double_div (Fin False 1) two = zero
   \<and> \<not> list_all (double_lt zero)
        (newton_guesses (Fin False 1) 0 (double_div (Fin False 1) two))
   \<and> testmath_sqrt_approx (Fin False 1) = Inf False
   \<and> double_lt zero (Inf False)
   \<and> \<not> list_all (double_lt zero)
        (newton_guesses (Inf False) 0 (double_div (Inf False) two))
   \<and> testmath_sqrt_approx (Inf False) = NaN"
proof -
  have half: "double_div (Fin False 1) two = zero"
    using one_units_pos by (simp add: two_def zero_def round_to_double_half_unit)
  have rep: "is_double (Fin False 1)"
    using one_less_overflow_units
    by (simp add: representable_def bit_length.simps [of "Suc 0"] bit_length_0)
  have first: "\<not> list_all (double_lt zero) (newton_guesses (Fin False 1) 0 zero)"
    by (subst newton_guesses.simps) (simp add: zero_def signed_units_def)
  have step0: "double_div (double_add zero (double_div (Fin False 1) zero)) two = Inf False"
    by (simp add: zero_def two_def)
  have step_inf: "double_div (double_add (Inf False) (double_div (Fin False 1) (Inf False))) two
      = Inf False"
    by (simp add: two_def)
  have res: "testmath_sqrt_approx (Fin False 1) = Inf False"
  proof -
    define f where "f = (\<lambda>g. double_div (double_add g (double_div (Fin False 1) g)) two)"
    have "(f ^^ Suc 9) zero = (f ^^ 9) (f zero)"
      by (simp only: funpow_Suc_right o_apply)
    also have "f zero = Inf False"
      unfolding f_def by (rule step0)
    also have "(f ^^ 9) (Inf False) = Inf False"
      by (rule funpow_fixed) (simp only: f_def step_inf)
    finally have "(f ^^ 10) zero = Inf False" by simp
    moreover have "\<not> double_le (Fin False 1) zero"
      by (simp add: zero_def signed_units_def)
    ultimately show ?thesis
      unfolding testmath_sqrt_approx_def newton_loop_funpow [OF le0] half f_def
        by (simp only: if_False diff_zero)
  qed
  have inf_half: "double_div (Inf False) two = Inf False"
    by (simp add: two_def)
  have inf_step: "double_div (double_add (Inf False) (double_div (Inf False) (Inf False))) two
      = NaN"
    by simp
  have nan_step: "double_div (double_add NaN (double_div (Inf False) NaN)) two = NaN"
    by simp
  have second: "\<not> list_all (double_lt zero) (newton_guesses (Inf False) 0 (Inf False))"
    by (subst newton_guesses.simps, subst newton_guesses.simps) (simp add: inf_step zero_def)
  have res_inf: "testmath_sqrt_approx (Inf False) = NaN"
  proof -
    define f where "f = (\<lambda>g. double_div (double_add g (double_div (Inf False) g)) two)"
    have "(f ^^ Suc 9) (Inf False) = (f ^^ 9) (f (Inf False))"
      by (simp only: funpow_Suc_right o_apply)
    also have "f (Inf False) = NaN"
      unfolding f_def by (rule inf_step)
    also have "(f ^^ 9) NaN = NaN"
      by (rule funpow_fixed) (simp only: f_def nan_step)
    finally have "(f ^^ 10) (Inf False) = NaN" by simp
    moreover have "\<not> double_le (Inf False) zero"
      by (simp add: zero_def)
    ultimately show ?thesis
      unfolding testmath_sqrt_approx_def newton_loop_funpow [OF le0] inf_half f_def
        by (simp only: if_False diff_zero)
  qed
  show ?thesis
    using half rep first res second res_inf
    by (simp add: inf_half) (simp add: zero_def signed_units_def)
qed

text \<open>
  C9, amended: for every finite input \<open>x\<close> of at least two units, \<open>x \<ge> 2 ^ -1073\<close> (every
  finite double above zero but the smallest subnormal), the guess is above zero (finite
  or plus infinity) each of the eleven times the loop condition is evaluated, so none of
  the ten divisions \<open>x / guess\<close> divides by zero (nor does \<open>x / 2.0\<close>); the last of these
  guesses is the value returned.
\<close>

theorem newton_guesses_stay_positive:
  assumes "2 \<le> k"
  shows "list_all (double_lt zero)
           (newton_guesses (Fin False k) 0 (double_div (Fin False k) two))
         \<and> length (newton_guesses (Fin False k) 0 (double_div (Fin False k) two)) = 11
         \<and> last (newton_guesses (Fin False k) 0 (double_div (Fin False k) two))
             = testmath_sqrt_approx (Fin False k)
         \<and> double_lt zero two"
proof -
  have "double_lt zero (double_div (Fin False k) two)"
    using assms by (rule half_positive)
  then have "list_all (double_lt zero)
      (newton_guesses (Fin False k) 0 (double_div (Fin False k) two))"
    by (rule newton_guesses_positive [OF assms])
  moreover have "\<not> double_le (Fin False k) zero"
    using assms by (simp add: zero_def signed_units_def)
  moreover have "double_lt zero two"
    using one_units_pos by (simp add: zero_def two_def signed_units_def)
  ultimately show ?thesis
    by (simp add: length_newton_guesses last_newton_guesses testmath_sqrt_approx_def)
qed

theorem newton_guesses_stay_positive_witness:
  "2 \<le> 16 * one_units
   \<and> list_all (double_lt zero)
       (newton_guesses (Fin False (16 * one_units)) 0
          (double_div (Fin False (16 * one_units)) two))
   \<and> last (newton_guesses (Fin False (16 * one_units)) 0
          (double_div (Fin False (16 * one_units)) two))
       = testmath_sqrt_approx (Fin False (16 * one_units))"
proof -
  have h: "2 \<le> 16 * one_units"
    using one_units_pos by simp
  show ?thesis
    using h newton_guesses_stay_positive [OF h] by simp
qed

text \<open>
  C10: \<open>add\<close> and \<open>multiply\<close> are commutative on all pairs of 32-bit integers.
\<close>

theorem testmath_add_multiply_commute:
  "testmath_add a b = testmath_add b a \<and> testmath_multiply a b = testmath_multiply b a"
  by (simp add: testmath_add_def testmath_multiply_def add.commute mult.commute)

end
